theory Spec2Isabelle
  imports Main
begin

section \<open>Platform primitives used by the dashboard code\<close>

text \<open>
  JavaScript strings are modelled as \<^typ>\<open>string\<close>; a \<^typ>\<open>char\<close> stands for a code unit
  below 256. The one place where the code behaves differently on larger code units is the
  call of \<^verbatim>\<open>btoa\<close> on user name and password: these two are kept as lists of code units
  (see the REST client). Thrown values are results of a sum type whose left injection is
  the error.
\<close>

datatype js_error = Error string | SyntaxError | TypeError | InvalidCharacterError

text \<open>\<^verbatim>\<open>s.replace(/^p/, r)\<close> for a literal pattern \<open>p\<close> anchored at the start.\<close>

definition replace_prefix :: "string \<Rightarrow> string \<Rightarrow> string \<Rightarrow> string" where
  "replace_prefix p r s = (if take (length p) s = p then r @ drop (length p) s else s)"

text \<open>\<^verbatim>\<open>s.replace(/\/$/, '')\<close>: one slash at the very end of the input is removed.\<close>

definition strip_trailing_slash :: "string \<Rightarrow> string" where
  "strip_trailing_slash s = (if s \<noteq> [] \<and> last s = CHR ''/'' then butlast s else s)"

text \<open>
  \<^verbatim>\<open>String.prototype.trim\<close>: white space and line terminators are removed at both ends.
  Below 256 these are TAB, LF, VT, FF, CR, SPACE and NBSP.
\<close>

definition is_white_space :: "char \<Rightarrow> bool" where
  "is_white_space c \<longleftrightarrow>
     c \<in> {CHR 0x09, CHR 0x0A, CHR 0x0B, CHR 0x0C, CHR 0x0D, CHR 0x20, CHR 0xA0}"

definition trim :: "string \<Rightarrow> string" where
  "trim s = rev (dropWhile is_white_space (rev (dropWhile is_white_space s)))"

text \<open>
  \<^verbatim>\<open>String.prototype.toUpperCase\<close> on ASCII text: the letters a to z are moved to A to Z,
  every other code unit is kept. The workflow below takes the upper-casing function as an
  argument, so its properties hold for the platform's full Unicode mapping as well.
\<close>

definition upper_char :: "char \<Rightarrow> char" where
  "upper_char c =
     (let n = (of_char c :: nat) in if 97 \<le> n \<and> n \<le> 122 then char_of (n - 32) else c)"

definition toUpperCase :: "string \<Rightarrow> string" where
  "toUpperCase s = map upper_char s"

text \<open>Decimal rendering of a non-negative integer, as a template literal does.\<close>

definition digit_char :: "nat \<Rightarrow> char" where
  "digit_char d = char_of (48 + d)"

fun number_to_string :: "nat \<Rightarrow> string" where
  "number_to_string n =
     (if n < 10 then [digit_char n] else number_to_string (n div 10) @ [digit_char (n mod 10)])"

declare number_to_string.simps [simp del]

text \<open>
  \<^verbatim>\<open>Array.prototype.findIndex\<close>: the index of the first element satisfying the predicate;
  \<open>None\<close> stands for the result \<open>-1\<close>.
\<close>

fun findIndex :: "('a \<Rightarrow> bool) \<Rightarrow> 'a list \<Rightarrow> nat option" where
  "findIndex P [] = None"
| "findIndex P (x # xs) = (if P x then Some 0 else map_option Suc (findIndex P xs))"

text \<open>
  A key of \<^verbatim>\<open>localStorage\<close>: \<open>Absent\<close> when \<^verbatim>\<open>getItem\<close> gives \<^verbatim>\<open>null\<close>
  (or the empty string, which the code tests the same way), \<open>Corrupt\<close> when the text does not
  parse to a value of the expected shape, so that reading it throws, \<open>Stored\<close> otherwise.
  Writes with \<^verbatim>\<open>setItem\<close> are taken to succeed.
\<close>

datatype 'a stored = Absent | Corrupt | Stored 'a


section \<open>Command store (services/commands.ts)\<close>

datatype command_type = IMMOBILISE | RESTORE_POWER

datatype command_status = requested | pending | executed | failed | cancelled

text \<open>
  \<^verbatim>\<open>Omit<Command, 'id' | 'timestamp'>\<close> and \<^verbatim>\<open>Command\<close> of models/types.ts. The field
  \<^verbatim>\<open>id\<close> is named \<open>cmd_id\<close> and \<^verbatim>\<open>type\<close> is named \<open>cmd_type\<close>.
\<close>

record command_input =
  cmd_type :: command_type
  status :: command_status
  deviceId :: int
  organizationId :: string
  userId :: string
  reason :: string
  executedAt :: "string option"
  "notes" :: "string option"

record command = command_input +
  cmd_id :: string
  timestamp :: string

text \<open>
  \<^verbatim>\<open>Partial<Command>\<close>: every field of \<^verbatim>\<open>Command\<close> may be given, \<^verbatim>\<open>id\<close> included.
  \<open>None\<close> is a key that is not present in the object.
\<close>

record command_updates =
  upd_id :: "string option"
  upd_type :: "command_type option"
  upd_status :: "command_status option"
  upd_deviceId :: "int option"
  upd_organizationId :: "string option"
  upd_userId :: "string option"
  upd_reason :: "string option"
  upd_timestamp :: "string option"
  upd_executedAt :: "string option"
  upd_notes :: "string option"

definition no_updates :: command_updates where
  "no_updates = \<lparr>upd_id = None, upd_type = None, upd_status = None, upd_deviceId = None,
     upd_organizationId = None, upd_userId = None, upd_reason = None, upd_timestamp = None,
     upd_executedAt = None, upd_notes = None\<rparr>"

text \<open>One key of the object spread \<^verbatim>\<open>{ ...old, ...updates }\<close>: a key present on the right wins.\<close>

definition spread_key :: "'a \<Rightarrow> 'a option \<Rightarrow> 'a" where
  "spread_key old new = (case new of None \<Rightarrow> old | Some v \<Rightarrow> v)"

definition spread_optional_key :: "'a option \<Rightarrow> 'a option \<Rightarrow> 'a option" where
  "spread_optional_key old new = (case new of None \<Rightarrow> old | Some v \<Rightarrow> Some v)"

definition spread_updates :: "command \<Rightarrow> command_updates \<Rightarrow> command" where
  "spread_updates c u =
     \<lparr>cmd_type = spread_key (cmd_type c) (upd_type u),
      status = spread_key (status c) (upd_status u),
      deviceId = spread_key (deviceId c) (upd_deviceId u),
      organizationId = spread_key (organizationId c) (upd_organizationId u),
      userId = spread_key (userId c) (upd_userId u),
      reason = spread_key (reason c) (upd_reason u),
      executedAt = spread_optional_key (executedAt c) (upd_executedAt u),
      notes = spread_optional_key (notes c) (upd_notes u),
      cmd_id = spread_key (cmd_id c) (upd_id u),
      timestamp = spread_key (timestamp c) (upd_timestamp u)\<rparr>"

definition getCommand :: "string \<Rightarrow> command list stored \<Rightarrow> command option" where
  "getCommand i store =
     (case store of
        Absent \<Rightarrow> None
      | Corrupt \<Rightarrow> None
      | Stored allCommands \<Rightarrow> find (\<lambda>cmd. cmd_id cmd = i) allCommands)"

text \<open>
  \<open>createCommand\<close>: the fresh identifier of \<^verbatim>\<open>crypto.randomUUID()\<close> and the time stamp of
  \<^verbatim>\<open>new Date().toISOString()\<close> are arguments. The parse is not guarded, so a corrupt
  log makes the call throw.
\<close>

definition createCommand ::
  "string \<Rightarrow> string \<Rightarrow> command_input \<Rightarrow> command list stored
     \<Rightarrow> js_error + (command \<times> command list stored)" where
  "createCommand uuid now cmd store =
     (let newCommand = command_input.extend cmd (command.fields uuid now) in
      case store of
        Absent \<Rightarrow> Inr (newCommand, Stored [newCommand])
      | Corrupt \<Rightarrow> Inl SyntaxError
      | Stored allCommands \<Rightarrow> Inr (newCommand, Stored (allCommands @ [newCommand])))"

text \<open>\<open>updateCommand\<close> returns the merged record (or \<open>None\<close> for \<^verbatim>\<open>null\<close>) and the new log.\<close>

definition updateCommand ::
  "string \<Rightarrow> command_updates \<Rightarrow> command list stored \<Rightarrow> command option \<times> command list stored" where
  "updateCommand i updates store =
     (case store of
        Absent \<Rightarrow> (None, store)
      | Corrupt \<Rightarrow> (None, store)
      | Stored allCommands \<Rightarrow>
          (case findIndex (\<lambda>cmd. cmd_id cmd = i) allCommands of
             None \<Rightarrow> (None, store)
           | Some index \<Rightarrow>
               let merged = spread_updates (allCommands ! index) updates in
               (Some merged, Stored (allCommands[index := merged]))))"


section \<open>Request workflow (ImmobilisationModal)\<close>

record checklist =
  vehicleStationary :: bool
  userAuthorized :: bool
  actionAudited :: bool

datatype checklist_key = VehicleStationary | UserAuthorized | ActionAudited

text \<open>The component's state variables.\<close>

record modal =
  step :: int
  checklist :: checklist
  reason :: string
  confirmation :: string
  isSubmitting :: bool

definition initial_modal :: modal where
  "initial_modal =
     \<lparr>step = 1,
      checklist = \<lparr>vehicleStationary = False, userAuthorized = False, actionAudited = False\<rparr>,
      reason = [], confirmation = [], isSubmitting = False\<rparr>"

definition requiredConfirmation :: "command_type \<Rightarrow> string" where
  "requiredConfirmation ty = (if ty = IMMOBILISE then ''IMMOBILISE'' else ''RESTORE POWER'')"

definition canProceed :: "command_type \<Rightarrow> modal \<Rightarrow> bool" where
  "canProceed ty s =
     (if step s = 1 then
        vehicleStationary (checklist s) \<and> userAuthorized (checklist s) \<and> actionAudited (checklist s)
      else if step s = 2 then length (trim (reason s)) > 0
      else confirmation s = requiredConfirmation ty)"

definition handleChecklistChange :: "checklist_key \<Rightarrow> modal \<Rightarrow> modal" where
  "handleChecklistChange key s =
     (let prev = checklist s in
      s\<lparr>checklist :=
          (case key of
             VehicleStationary \<Rightarrow> prev\<lparr>vehicleStationary := \<not> vehicleStationary prev\<rparr>
           | UserAuthorized \<Rightarrow> prev\<lparr>userAuthorized := \<not> userAuthorized prev\<rparr>
           | ActionAudited \<Rightarrow> prev\<lparr>actionAudited := \<not> actionAudited prev\<rparr>)\<rparr>)"

text \<open>\<open>handleClose\<close> resets the four inputs; \<^verbatim>\<open>isSubmitting\<close> is not touched by it.\<close>

definition handleClose :: "modal \<Rightarrow> modal" where
  "handleClose s =
     s\<lparr>step := 1,
       checklist := \<lparr>vehicleStationary = False, userAuthorized = False, actionAudited = False\<rparr>,
       reason := [], confirmation := []\<rparr>"

text \<open>The properties of the component that the workflow reads.\<close>

record modal_props =
  prop_deviceId :: int
  prop_organizationId :: string
  prop_userId :: string
  prop_type :: command_type

text \<open>
  \<open>handleSubmit\<close> has no suspension point, so it runs to its end within one event: the result
  is the state after the \<^verbatim>\<open>finally\<close> block, the command log, and the command handed to
  \<^verbatim>\<open>onSuccess\<close> when one was created.
\<close>

definition handleSubmit ::
  "modal_props \<Rightarrow> string \<Rightarrow> string \<Rightarrow> modal \<Rightarrow> command list stored
     \<Rightarrow> modal \<times> command list stored \<times> command option" where
  "handleSubmit props uuid now s store =
     (if \<not> canProceed (prop_type props) s then (s, store, None)
      else
        (case createCommand uuid now
                \<lparr>cmd_type = prop_type props, status = requested,
                 deviceId = prop_deviceId props, organizationId = prop_organizationId props,
                 userId = prop_userId props, command_input.reason = trim (reason s),
                 executedAt = None, notes = None\<rparr> store of
           Inl err \<Rightarrow> (s\<lparr>isSubmitting := False\<rparr>, store, None)
         | Inr (command, store') \<Rightarrow> ((handleClose s)\<lparr>isSubmitting := False\<rparr>, store', Some command)))"

text \<open>
  What the operator and the parent page can do. A control acts only while it is rendered
  and enabled; the \<open>Submit\<close> event carries the identifier and the time the platform would
  supply to \<open>createCommand\<close>.
\<close>

datatype ui_event =
    Open
  | Toggle checklist_key
  | EditReason string
  | TypeConfirmation string
  | Next
  | Back
  | Submit string string
  | Cancel
  | CloseIcon

record ui =
  isOpen :: bool
  state :: modal
  commands :: "command list stored"
  succeeded :: "command list"

definition initial_ui :: "command list stored \<Rightarrow> ui" where
  "initial_ui store = \<lparr>isOpen = False, state = initial_modal, commands = store, succeeded = []\<rparr>"

definition ui_step :: "(string \<Rightarrow> string) \<Rightarrow> modal_props \<Rightarrow> ui_event \<Rightarrow> ui \<Rightarrow> ui" where
  "ui_step upper props e w =
     (let s = state w in
      if \<not> isOpen w then (case e of Open \<Rightarrow> w\<lparr>isOpen := True\<rparr> | _ \<Rightarrow> w)
      else
        (case e of
           Open \<Rightarrow> w
         | Toggle key \<Rightarrow> if step s = 1 then w\<lparr>state := handleChecklistChange key s\<rparr> else w
         | EditReason v \<Rightarrow> if step s = 2 then w\<lparr>state := s\<lparr>reason := v\<rparr>\<rparr> else w
         | TypeConfirmation v \<Rightarrow>
             if step s = 3 then w\<lparr>state := s\<lparr>confirmation := upper v\<rparr>\<rparr> else w
         | Next \<Rightarrow>
             if step s < 3 \<and> \<not> (\<not> canProceed (prop_type props) s \<or> isSubmitting s)
             then w\<lparr>state := s\<lparr>step := step s + 1\<rparr>\<rparr> else w
         | Back \<Rightarrow>
             if step s > 1 \<and> \<not> isSubmitting s then w\<lparr>state := s\<lparr>step := step s - 1\<rparr>\<rparr> else w
         | Submit uuid now \<Rightarrow>
             if \<not> step s < 3 \<and> \<not> (\<not> canProceed (prop_type props) s \<or> isSubmitting s)
             then
               (case handleSubmit props uuid now s (commands w) of
                  (s', store', None) \<Rightarrow> w\<lparr>state := s', commands := store'\<rparr>
                | (s', store', Some command) \<Rightarrow>
                    w\<lparr>state := s', commands := store', succeeded := succeeded w @ [command],
                      isOpen := False\<rparr>)
             else w
         | Cancel \<Rightarrow> if \<not> isSubmitting s then w\<lparr>state := handleClose s, isOpen := False\<rparr> else w
         | CloseIcon \<Rightarrow> w\<lparr>state := handleClose s, isOpen := False\<rparr>))"

definition ui_run :: "(string \<Rightarrow> string) \<Rightarrow> modal_props \<Rightarrow> ui_event list \<Rightarrow> ui \<Rightarrow> ui" where
  "ui_run upper props es w = fold (ui_step upper props) es w"


section \<open>REST client (services/traccarApi.ts)\<close>

datatype auth_method = token | basic

text \<open>
  A string as the list of its UTF-16 code units, each a number below 65536; \<open>units\<close> gives
  the code units of a text whose characters are all below 256.
\<close>

type_synonym code_units = "nat list"

definition units :: "string \<Rightarrow> code_units" where
  "units s = map of_char s"

record traccar_config =
  serverUrl :: string
  authMethod :: auth_method
  apiToken :: "string option"
  username :: "code_units option"
  password :: "code_units option"
  organizationId :: string
  lastTested :: "string option"
  isValid :: bool

text \<open>An optional string in a condition: absent and empty both count as false.\<close>

definition truthy :: "'a list option \<Rightarrow> bool" where
  "truthy v = (case v of None \<Rightarrow> False | Some s \<Rightarrow> s \<noteq> [])"

text \<open>
  Base64 of a list of octets: three octets to four letters, padded with \<open>=\<close>.
\<close>

definition b64_alphabet :: string where
  "b64_alphabet = ''ABCDEFGHIJKLMNOPQRSTUVWXYZabcdefghijklmnopqrstuvwxyz0123456789+/''"

definition b64_char :: "nat \<Rightarrow> char" where
  "b64_char n = b64_alphabet ! (n mod 64)"

fun b64_encode :: "nat list \<Rightarrow> string" where
  "b64_encode [] = []"
| "b64_encode [a] = [b64_char (a div 4), b64_char ((a mod 4) * 16), CHR ''='', CHR ''='']"
| "b64_encode [a, b] =
     [b64_char (a div 4), b64_char ((a mod 4) * 16 + b div 16), b64_char ((b mod 16) * 4),
      CHR ''='']"
| "b64_encode (a # b # c # rest) =
     [b64_char (a div 4), b64_char ((a mod 4) * 16 + b div 16),
      b64_char ((b mod 16) * 4 + c div 64), b64_char (c mod 64)] @ b64_encode rest"

text \<open>
  \<^verbatim>\<open>btoa\<close>: every code unit of the text is taken as one octet and the octets are encoded
  in Base64; a code unit above 255 makes the call throw \<^verbatim>\<open>InvalidCharacterError\<close>.
\<close>

definition btoa :: "code_units \<Rightarrow> js_error + string" where
  "btoa s = (if list_all (\<lambda>c. c \<le> 255) s then Inr (b64_encode s) else Inl InvalidCharacterError)"

text \<open>
  \<open>getAuthHeaders\<close> does not catch what \<^verbatim>\<open>btoa\<close> throws, so it returns the headers or the
  error.
\<close>

definition getAuthHeaders :: "traccar_config \<Rightarrow> js_error + (string \<rightharpoonup> string)" where
  "getAuthHeaders config =
     (let headers = [''Content-Type'' \<mapsto> ''application/json''] in
      if authMethod config = token \<and> truthy (apiToken config) then
        Inr (headers(''Authorization'' \<mapsto> ''Bearer '' @ the (apiToken config)))
      else if authMethod config = basic \<and> truthy (username config) \<and> truthy (password config) then
        (case btoa (the (username config) @ units '':'' @ the (password config)) of
           Inl err \<Rightarrow> Inl err
         | Inr credentials \<Rightarrow> Inr (headers(''Authorization'' \<mapsto> ''Basic '' @ credentials)))
      else Inr headers)"

text \<open>
  A response of \<^verbatim>\<open>fetch\<close>. \<open>body\<close> is what \<^verbatim>\<open>response.json()\<close> resolves to; \<open>None\<close> is a
  body that is not JSON text (an empty body, for one), on which \<^verbatim>\<open>json()\<close> rejects.
  \<^verbatim>\<open>response.ok\<close> is defined by the platform as a status from 200 to 299.
\<close>

record 'b response =
  status :: nat
  statusText :: string
  body :: "'b option"

definition ok :: "'b response \<Rightarrow> bool" where
  "ok r \<longleftrightarrow> 200 \<le> status r \<and> status r \<le> 299"

record request_init =
  req_method :: "string option"
  req_body :: "string option"
  req_headers :: "string \<rightharpoonup> string"

definition getTraccarConfig :: "traccar_config stored \<Rightarrow> traccar_config option" where
  "getTraccarConfig stored_config =
     (case stored_config of Absent \<Rightarrow> None | Corrupt \<Rightarrow> None | Stored c \<Rightarrow> Some c)"

text \<open>
  \<open>apiRequest\<close>: the stored configuration and the network (\<open>fetch\<close>, which either rejects or
  resolves to a response) are arguments. The headers are built before the request is
  sent and outside any \<^verbatim>\<open>try\<close>, so an error of \<open>getAuthHeaders\<close> is the error of the call.
\<close>

definition apiRequest ::
  "traccar_config stored \<Rightarrow> (string \<Rightarrow> request_init \<Rightarrow> js_error + 'b response)
     \<Rightarrow> string \<Rightarrow> request_init \<Rightarrow> js_error + 'b" where
  "apiRequest stored_config fetch endpoint options =
     (case getTraccarConfig stored_config of
        None \<Rightarrow>
          Inl (Error ''Traccar connection not configured or invalid. Please configure in Settings.'')
      | Some config \<Rightarrow>
          if \<not> isValid config then
            Inl (Error ''Traccar connection not configured or invalid. Please configure in Settings.'')
          else
            (let url = strip_trailing_slash (serverUrl config) @ endpoint in
             case getAuthHeaders config of
               Inl err \<Rightarrow> Inl err
             | Inr headers \<Rightarrow>
                 (case fetch url (options\<lparr>req_headers := headers ++ req_headers options\<rparr>) of
                    Inl err \<Rightarrow> Inl err
                  | Inr response \<Rightarrow>
                      if \<not> ok response then
                        (if status response = 401 then
                           Inl (Error ''Authentication failed. Please check your Traccar credentials.'')
                         else if status response = 404 then Inl (Error ''Resource not found.'')
                         else
                           Inl (Error (''Traccar API error: '' @ number_to_string (status response)
                                   @ '' '' @ statusText response)))
                      else (case body response of None \<Rightarrow> Inl SyntaxError | Some v \<Rightarrow> Inr v))))"


section \<open>Realtime client (services/traccarWebSocket.ts)\<close>

datatype message_type = positions | devices | events

datatype ready_state = CONNECTING | OPEN | CLOSING | CLOSED

datatype timer_state = Pending | Fired

text \<open>
  A handler is a function object, compared by identity: it is modelled by a number. A
  payload is the value found under a key of a message.
\<close>

type_synonym handler = nat
type_synonym payload = string

text \<open>
  An inbound message maps each of the three keys to its payload; \<open>None\<close> is a key that is
  missing or holds a value that counts as false.
\<close>

type_synonym ws_message = "message_type \<Rightarrow> payload option"

text \<open>
  The fields of \<^verbatim>\<open>TraccarWebSocketClient\<close> (\<open>ws\<close> to \<open>isConnecting\<close>) together with the
  part of the browser the class acts on: \<open>sockets\<close> holds every \<^verbatim>\<open>WebSocket\<close> constructed so
  far with its URL and ready state (\<open>ws\<close> is an index into it), \<open>timers\<close> every call of
  \<^verbatim>\<open>setTimeout\<close> made so far with its delay in milliseconds and whether its callback has
  run, \<open>console\<close> the lines logged, and \<open>delivered\<close> the handler calls made. A \<^verbatim>\<open>Set\<close> of handlers is the list of its members in insertion
  order.
\<close>

record rt =
  ws :: "nat option"
  config :: "traccar_config option"
  reconnectAttempts :: nat
  handlers :: "message_type \<rightharpoonup> handler list"
  isConnecting :: bool
  sockets :: "(string \<times> ready_state) list"
  timers :: "(nat \<times> timer_state) list"
  console :: "string list"
  delivered :: "(handler \<times> payload) list"

definition maxReconnectAttempts :: nat where
  "maxReconnectAttempts = 5"

definition reconnectDelay :: nat where
  "reconnectDelay = 3000"

definition initial_rt :: rt where
  "initial_rt =
     \<lparr>ws = None, config = None, reconnectAttempts = 0, handlers = Map.empty,
      isConnecting = False, sockets = [], timers = [], console = [], delivered = []\<rparr>"

definition readyState :: "rt \<Rightarrow> nat \<Rightarrow> ready_state" where
  "readyState w i = (if i < length (sockets w) then snd (sockets w ! i) else CLOSED)"

definition set_readyState :: "nat \<Rightarrow> ready_state \<Rightarrow> rt \<Rightarrow> rt" where
  "set_readyState i st w =
     (if i < length (sockets w) then w\<lparr>sockets := (sockets w)[i := (fst (sockets w ! i), st)]\<rparr>
      else w)"

definition console_log :: "string \<Rightarrow> rt \<Rightarrow> rt" where
  "console_log line w = w\<lparr>console := console w @ [line]\<rparr>"

definition isConnected :: "rt \<Rightarrow> bool" where
  "isConnected w = (case ws w of None \<Rightarrow> False | Some i \<Rightarrow> readyState w i = OPEN)"

definition wsUrl :: "string \<Rightarrow> string" where
  "wsUrl url =
     strip_trailing_slash (replace_prefix ''https:'' ''wss:'' (replace_prefix ''http:'' ''ws:'' url))
       @ ''/api/socket''"

definition attemptReconnect :: "rt \<Rightarrow> rt" where
  "attemptReconnect w =
     (if reconnectAttempts w \<ge> maxReconnectAttempts then console_log ''Max reconnection attempts reached'' w
      else if config w = None then w
      else
        (let w1 = w\<lparr>reconnectAttempts := reconnectAttempts w + 1\<rparr>;
             delay = reconnectDelay * 2 ^ (reconnectAttempts w1 - 1)
         in w1\<lparr>timers := timers w1 @ [(delay, Pending)]\<rparr>))"

text \<open>
  \<open>connect\<close>. The argument is optional because the timer callback passes \<^verbatim>\<open>this.config!\<close>,
  which is \<^verbatim>\<open>null\<close> after \<open>disconnect\<close>; reading \<^verbatim>\<open>serverUrl\<close> of it throws inside the
  \<^verbatim>\<open>try\<close> block. \<open>ctor_ok\<close> tells for which URLs the \<^verbatim>\<open>WebSocket\<close> constructor returns
  rather than throws.
\<close>

definition connect :: "(string \<Rightarrow> bool) \<Rightarrow> traccar_config option \<Rightarrow> rt \<Rightarrow> rt" where
  "connect ctor_ok cfg w =
     (if isConnecting w \<or> isConnected w then w
      else
        (let w1 = w\<lparr>config := cfg, isConnecting := True\<rparr>;
             failed_to_create =
               attemptReconnect
                 ((console_log ''Failed to create WebSocket connection:'' w1)\<lparr>isConnecting := False\<rparr>)
         in case cfg of
              None \<Rightarrow> failed_to_create
            | Some c \<Rightarrow>
                if ctor_ok (wsUrl (serverUrl c)) then
                  w1\<lparr>sockets := sockets w1 @ [(wsUrl (serverUrl c), CONNECTING)],
                     ws := Some (length (sockets w1))\<rparr>
                else failed_to_create))"

definition onopen :: "rt \<Rightarrow> rt" where
  "onopen w = (console_log ''Traccar WebSocket connected'' w)\<lparr>isConnecting := False, reconnectAttempts := 0\<rparr>"

definition onerror :: "rt \<Rightarrow> rt" where
  "onerror w = (console_log ''WebSocket error:'' w)\<lparr>isConnecting := False\<rparr>"

definition onclose :: "rt \<Rightarrow> rt" where
  "onclose w = attemptReconnect ((console_log ''Traccar WebSocket disconnected'' w)\<lparr>isConnecting := False\<rparr>)"

text \<open>The callback given to \<^verbatim>\<open>setTimeout\<close> by \<open>attemptReconnect\<close>.\<close>

definition reconnect_callback :: "(string \<Rightarrow> bool) \<Rightarrow> rt \<Rightarrow> rt" where
  "reconnect_callback ctor_ok w =
     connect ctor_ok (config w)
       (console_log (''Attempting to reconnect ('' @ number_to_string (reconnectAttempts w) @ ''/''
              @ number_to_string maxReconnectAttempts @ '')...'') w)"

text \<open>
  Handlers are called in the order of the set; what a handler does, an exception
  included, stays outside the client, so a call is recorded and nothing else changes.
\<close>

definition notifyHandlers :: "message_type \<Rightarrow> payload \<Rightarrow> rt \<Rightarrow> rt" where
  "notifyHandlers ty data w =
     (case handlers w ty of
        None \<Rightarrow> w
      | Some hs \<Rightarrow> w\<lparr>delivered := delivered w @ map (\<lambda>h. (h, data)) hs\<rparr>)"

definition handleMessage :: "ws_message \<Rightarrow> rt \<Rightarrow> rt" where
  "handleMessage message w =
     (let w1 = (case message positions of None \<Rightarrow> w | Some d \<Rightarrow> notifyHandlers positions d w);
          w2 = (case message devices of None \<Rightarrow> w1 | Some d \<Rightarrow> notifyHandlers devices d w1)
      in case message events of None \<Rightarrow> w2 | Some d \<Rightarrow> notifyHandlers events d w2)"

text \<open>\<open>onmessage\<close>: \<open>None\<close> is event data that \<^verbatim>\<open>JSON.parse\<close> rejects.\<close>

definition onmessage :: "ws_message option \<Rightarrow> rt \<Rightarrow> rt" where
  "onmessage data w =
     (case data of
        None \<Rightarrow> console_log ''Error parsing WebSocket message:'' w
      | Some message \<Rightarrow> handleMessage message w)"

definition set_add :: "'a \<Rightarrow> 'a list \<Rightarrow> 'a list" where
  "set_add x xs = (if x \<in> set xs then xs else xs @ [x])"

definition set_delete :: "'a \<Rightarrow> 'a list \<Rightarrow> 'a list" where
  "set_delete x xs = filter (\<lambda>y. y \<noteq> x) xs"

text \<open>
  \<open>subscribe\<close> gives the new client state; the function it returns is \<open>unsubscribe ty h\<close>
  below, which captures the message type and the handler.
\<close>

definition subscribe :: "message_type \<Rightarrow> handler \<Rightarrow> rt \<Rightarrow> rt" where
  "subscribe ty h w =
     (let w1 = (if handlers w ty = None then w\<lparr>handlers := (handlers w)(ty \<mapsto> [])\<rparr> else w)
      in case handlers w1 ty of
           None \<Rightarrow> w1
         | Some hs \<Rightarrow> w1\<lparr>handlers := (handlers w1)(ty \<mapsto> set_add h hs)\<rparr>)"

definition unsubscribe :: "message_type \<Rightarrow> handler \<Rightarrow> rt \<Rightarrow> rt" where
  "unsubscribe ty h w =
     (case handlers w ty of
        None \<Rightarrow> w
      | Some hs \<Rightarrow> w\<lparr>handlers := (handlers w)(ty \<mapsto> set_delete h hs)\<rparr>)"

text \<open>\<^verbatim>\<open>WebSocket.close()\<close>: a socket that is connecting or open starts closing.\<close>

definition ws_close :: "nat \<Rightarrow> rt \<Rightarrow> rt" where
  "ws_close i w =
     (if readyState w i = CONNECTING \<or> readyState w i = OPEN then set_readyState i CLOSING w else w)"

definition disconnect :: "rt \<Rightarrow> rt" where
  "disconnect w =
     (let w1 = (case ws w of None \<Rightarrow> w | Some i \<Rightarrow> (ws_close i w)\<lparr>ws := None\<rparr>)
      in w1\<lparr>handlers := Map.empty, config := None, reconnectAttempts := 0\<rparr>)"

text \<open>
  What can happen to the client: calls of its public methods, events of a socket it
  constructed, and a pending timer running its callback. The browser delivers \<open>open\<close> to a connecting
  socket, \<open>message\<close> to an open one, \<open>error\<close> and \<open>close\<close> to one that is not closed yet; an
  event that cannot happen leaves the state as it is.
\<close>

datatype rt_event =
    CallConnect traccar_config
  | CallDisconnect
  | CallSubscribe message_type handler
  | CallUnsubscribe message_type handler
  | SocketOpen nat
  | SocketMessage nat "ws_message option"
  | SocketError nat
  | SocketClose nat
  | TimerFires nat

definition pending :: "rt \<Rightarrow> nat \<Rightarrow> bool" where
  "pending w k \<longleftrightarrow> k < length (timers w) \<and> snd (timers w ! k) = Pending"

definition mark_fired :: "nat \<Rightarrow> rt \<Rightarrow> rt" where
  "mark_fired k w = w\<lparr>timers := (timers w)[k := (fst (timers w ! k), Fired)]\<rparr>"

definition rt_step :: "(string \<Rightarrow> bool) \<Rightarrow> rt_event \<Rightarrow> rt \<Rightarrow> rt" where
  "rt_step ctor_ok e w =
     (case e of
        CallConnect cfg \<Rightarrow> connect ctor_ok (Some cfg) w
      | CallDisconnect \<Rightarrow> disconnect w
      | CallSubscribe ty h \<Rightarrow> subscribe ty h w
      | CallUnsubscribe ty h \<Rightarrow> unsubscribe ty h w
      | SocketOpen i \<Rightarrow>
          if i < length (sockets w) \<and> readyState w i = CONNECTING
          then onopen (set_readyState i OPEN w) else w
      | SocketMessage i data \<Rightarrow>
          if i < length (sockets w) \<and> readyState w i = OPEN then onmessage data w else w
      | SocketError i \<Rightarrow>
          if i < length (sockets w) \<and> readyState w i \<noteq> CLOSED then onerror w else w
      | SocketClose i \<Rightarrow>
          if i < length (sockets w) \<and> readyState w i \<noteq> CLOSED
          then onclose (set_readyState i CLOSED w) else w
      | TimerFires k \<Rightarrow>
          if pending w k then reconnect_callback ctor_ok (mark_fired k w) else w)"

definition rt_run :: "(string \<Rightarrow> bool) \<Rightarrow> rt_event list \<Rightarrow> rt \<Rightarrow> rt" where
  "rt_run ctor_ok es w = fold (rt_step ctor_ok) es w"


section \<open>Stated behaviour and example data\<close>

text \<open>
  The realtime endpoint as the design document words it, written without the operations
  of the code: the scheme \<open>https\<close> becomes \<open>wss\<close> and \<open>http\<close> becomes \<open>ws\<close>; a slash that
  ends the URL is dropped; the path \<open>/api/socket\<close> is appended.
\<close>

definition spec_scheme_substitution :: "string \<Rightarrow> string" where
  "spec_scheme_substitution url =
     (if take 6 url = ''https:'' then ''wss:'' @ drop 6 url
      else if take 5 url = ''http:'' then ''ws:'' @ drop 5 url
      else url)"

definition spec_without_trailing_slash :: "string \<Rightarrow> string" where
  "spec_without_trailing_slash url =
     (case rev url of
        [] \<Rightarrow> []
      | c # before \<Rightarrow> if c = CHR ''/'' then rev before else url)"

definition spec_realtime_endpoint :: "string \<Rightarrow> string" where
  "spec_realtime_endpoint url =
     spec_without_trailing_slash (spec_scheme_substitution url) @ ''/api/socket''"

definition all_checked :: "checklist \<Rightarrow> bool" where
  "all_checked c \<longleftrightarrow> vehicleStationary c \<and> userAuthorized c \<and> actionAudited c"

text \<open>
  What holds of the workflow state between events: past the first step the checklist is
  affirmed, and on the third step the reason is not blank.
\<close>

definition workflow_inv :: "modal \<Rightarrow> bool" where
  "workflow_inv s \<longleftrightarrow>
     (step s = 1 \<or> step s = 2 \<or> step s = 3) \<and>
     (step s \<noteq> 1 \<longrightarrow> all_checked (checklist s)) \<and>
     (step s = 3 \<longrightarrow> trim (reason s) \<noteq> []) \<and>
     \<not> isSubmitting s"

definition example_token_config :: traccar_config where
  "example_token_config =
     \<lparr>serverUrl = ''https://x.test'', authMethod = token, apiToken = Some ''abc'',
      username = None, password = None, organizationId = ''org-1'', lastTested = None,
      isValid = True\<rparr>"



definition example_command :: command where
  "example_command =
     \<lparr>cmd_type = IMMOBILISE, command_input.status = requested, deviceId = 7,
      command_input.organizationId = ''org-1'', userId = ''user-1'',
      command_input.reason = ''stolen'', executedAt = None, notes = None,
      cmd_id = ''cmd-1'', timestamp = ''2024-01-01T00:00:00.000Z''\<rparr>"

definition example_props :: modal_props where
  "example_props =
     \<lparr>prop_deviceId = 7, prop_organizationId = ''org-1'', prop_userId = ''user-1'',
      prop_type = IMMOBILISE\<rparr>"

definition example_session :: "ui_event list" where
  "example_session =
     [Open, Toggle VehicleStationary, Toggle UserAuthorized, Toggle ActionAudited, Next,
      EditReason '' stolen '', Next, TypeConfirmation ''immobilise'']"

definition no_init :: request_init where
  "no_init = \<lparr>req_method = None, req_body = None, req_headers = Map.empty\<rparr>"


text \<open>A \<^verbatim>\<open>fetch\<close> that resolves to the given response, whatever is requested.\<close>

definition always_respond :: "'b response \<Rightarrow> string \<Rightarrow> request_init \<Rightarrow> js_error + 'b response" where
  "always_respond r url init = Inr r"

definition no_content :: "string response" where
  "no_content = \<lparr>status = 204, statusText = ''No Content'', body = None\<rparr>"

text \<open>A \<^verbatim>\<open>WebSocket\<close> constructor that accepts every URL.\<close>

definition any_url_ok :: "string \<Rightarrow> bool" where
  "any_url_ok url = True"

definition explicit_connect :: "rt_event \<Rightarrow> bool" where
  "explicit_connect e = (case e of CallConnect _ \<Rightarrow> True | _ \<Rightarrow> False)"

text \<open>
  \<open>k\<close> failed connection attempts in a row: socket \<open>i\<close> closes without having opened, then
  timer \<open>i\<close>, scheduled by that close, runs and constructs socket \<open>i + 1\<close>.
\<close>

definition failure_cycle :: "nat \<Rightarrow> rt_event list" where
  "failure_cycle k = concat (map (\<lambda>i. [SocketClose i, TimerFires i]) [0..<k])"

text \<open>The members of the handler set of a message type, in insertion order.\<close>

definition registered :: "rt \<Rightarrow> message_type \<Rightarrow> handler list" where
  "registered w ty = (case handlers w ty of None \<Rightarrow> [] | Some hs \<Rightarrow> hs)"

text \<open>A \<^verbatim>\<open>Set\<close> holds each member once.\<close>

definition handlers_distinct :: "rt \<Rightarrow> bool" where
  "handlers_distinct w \<longleftrightarrow>
     distinct (registered w positions) \<and> distinct (registered w devices) \<and>
     distinct (registered w events)"

text \<open>A client that is connecting, one whose first attempt failed and whose first reconnect
  is scheduled, and one that has used up its five reconnects.\<close>

definition example_connecting :: rt where
  "example_connecting = connect any_url_ok (Some example_token_config) initial_rt"

definition example_backoff_pending :: rt where
  "example_backoff_pending =
     rt_run any_url_ok [CallConnect example_token_config, SocketClose 0] initial_rt"

definition example_exhausted :: rt where
  "example_exhausted =
     rt_run any_url_ok (CallConnect example_token_config # failure_cycle 6) initial_rt"


section \<open>Properties of the request workflow\<close>

lemma workflow_inv_initial: "workflow_inv initial_modal"
  by (simp add: workflow_inv_def initial_modal_def)

lemma workflow_inv_handleClose: "workflow_inv s \<Longrightarrow> workflow_inv (handleClose s)"
  by (simp add: workflow_inv_def handleClose_def)

lemma workflow_inv_handleSubmit:
  "workflow_inv s \<Longrightarrow> workflow_inv (fst (handleSubmit props uuid now s store))"
  by (auto simp: handleSubmit_def workflow_inv_def handleClose_def split: sum.splits prod.splits)

lemma ui_step_inv:
  assumes "workflow_inv (state w)"
  shows "workflow_inv (state (ui_step upper props e w))"
proof (cases "isOpen w")
  case False
  with assms show ?thesis by (cases e) (simp_all add: ui_step_def)
next
  case True
  show ?thesis
  proof (cases e)
    case (Submit uuid now)
    obtain s' store' r where h: "handleSubmit props uuid now (state w) (commands w) = (s', store', r)"
      by (cases "handleSubmit props uuid now (state w) (commands w)") auto
    with workflow_inv_handleSubmit [OF assms, of props uuid now "commands w"]
    have "workflow_inv s'" by simp
    with assms True Submit h show ?thesis
      by (cases r) (simp_all add: ui_step_def Let_def)
  next
    case (Toggle key)
    with assms True show ?thesis
      by (auto simp: ui_step_def Let_def workflow_inv_def handleChecklistChange_def)
  next
    case Next
    with assms True show ?thesis
      by (auto simp: ui_step_def Let_def workflow_inv_def canProceed_def all_checked_def)
  next
    case Back
    with assms True show ?thesis
      by (auto simp: ui_step_def Let_def workflow_inv_def)
  qed (use assms True workflow_inv_handleClose in \<open>auto simp: ui_step_def Let_def workflow_inv_def\<close>)
qed

lemma ui_run_inv:
  "workflow_inv (state w) \<Longrightarrow> workflow_inv (state (ui_run upper props es w))"
  unfolding ui_run_def by (induction es arbitrary: w) (simp_all add: ui_step_inv)

text \<open>
  Claim C1. Take any sequence of events on the modal, from its initial state and any
  command log, with any upper-casing function. If pressing the submit button in the state
  reached hands a created command to \<^verbatim>\<open>onSuccess\<close>, then in that state all three checklist
  items are checked, the trimmed reason is not empty, and the confirmation text equals
  the phrase required for the command type.
\<close>

theorem submit_only_after_all_gates:
  assumes "w = ui_run upper props es (initial_ui store)"
    and "succeeded (ui_step upper props (Submit uuid now) w) \<noteq> succeeded w"
  shows "vehicleStationary (checklist (state w)) \<and> userAuthorized (checklist (state w)) \<and>
         actionAudited (checklist (state w)) \<and> trim (reason (state w)) \<noteq> [] \<and>
         confirmation (state w) = requiredConfirmation (prop_type props)"
proof -
  have inv: "workflow_inv (state w)"
    unfolding assms(1) by (rule ui_run_inv) (simp add: initial_ui_def workflow_inv_initial)
  have en: "isOpen w \<and> \<not> step (state w) < 3 \<and> canProceed (prop_type props) (state w)"
    using assms(2) by (auto simp: ui_step_def Let_def split: if_splits)
  with inv have "step (state w) = 3" by (auto simp: workflow_inv_def)
  with inv en show ?thesis by (auto simp: workflow_inv_def canProceed_def all_checked_def)
qed

text \<open>
  The theorem of claim C1 at the example session: the operator ticks the three boxes,
  gives a reason, types the phrase in lower case, and submits; a command is created.
\<close>

theorem submit_only_after_all_gates_witness:
  "succeeded (ui_step toUpperCase example_props (Submit ''cmd-1'' ''2024-01-01T00:00:00.000Z'')
      (ui_run toUpperCase example_props example_session (initial_ui Absent)))
     \<noteq> succeeded (ui_run toUpperCase example_props example_session (initial_ui Absent)) \<and>
   vehicleStationary
     (checklist (state (ui_run toUpperCase example_props example_session (initial_ui Absent)))) \<and>
   trim (reason (state (ui_run toUpperCase example_props example_session (initial_ui Absent))))
     \<noteq> [] \<and>
   confirmation (state (ui_run toUpperCase example_props example_session (initial_ui Absent)))
     = ''IMMOBILISE''"
proof -
  have h: "succeeded (ui_step toUpperCase example_props (Submit ''cmd-1'' ''2024-01-01T00:00:00.000Z'')
      (ui_run toUpperCase example_props example_session (initial_ui Absent)))
     \<noteq> succeeded (ui_run toUpperCase example_props example_session (initial_ui Absent))"
    by code_simp
  have t: "requiredConfirmation (prop_type example_props) = ''IMMOBILISE''"
    by (simp add: requiredConfirmation_def example_props_def)
  from submit_only_after_all_gates [OF refl h] h t show ?thesis by simp
qed

lemma created_command_fields:
  assumes "handleSubmit props uuid now s store = (s', store', Some c)"
  shows "command_input.reason c = trim (reason s) \<and> command_input.status c = requested \<and>
         cmd_type c = prop_type props \<and> cmd_id c = uuid \<and> s' = (handleClose s)\<lparr>isSubmitting := False\<rparr>"
  using assms
  by (auto simp: handleSubmit_def createCommand_def Let_def command_input.defs command.defs
      split: if_splits stored.splits)


section \<open>Properties of the command store\<close>

lemma findIndex_Some:
  "findIndex P xs = Some k \<Longrightarrow>
     k < length xs \<and> P (xs ! k) \<and> find P xs = Some (xs ! k) \<and> (\<forall>j < k. \<not> P (xs ! j))"
proof (induction xs arbitrary: k)
  case Nil
  then show ?case by simp
next
  case (Cons x xs)
  show ?case
  proof (cases "P x")
    case True
    with Cons.prems show ?thesis by simp
  next
    case False
    with Cons.prems obtain k' where k': "findIndex P xs = Some k'" "k = Suc k'"
      by auto
    from Cons.IH [OF k'(1)] False k'(2) show ?thesis
      by (auto simp: less_Suc_eq_0_disj)
  qed
qed

lemma findIndex_find_None: "findIndex P xs = None \<longleftrightarrow> find P xs = None"
  by (induction xs) auto

text \<open>
  Claim C2, as stated, fails where the update itself carries an identifier: the log holds
  one command \<open>cmd-1\<close>, and updating \<open>cmd-1\<close> with \<open>{id: 'cmd-2'}\<close> returns and stores the
  record under the identifier \<open>cmd-2\<close>; no record \<open>cmd-1\<close> is left.
\<close>

theorem updateCommand_changes_id_counterexample:
  "cmd_id example_command = ''cmd-1'' \<and>
   updateCommand ''cmd-1'' (no_updates\<lparr>upd_id := Some ''cmd-2''\<rparr>) (Stored [example_command])
     = (Some (example_command\<lparr>cmd_id := ''cmd-2''\<rparr>),
        Stored [example_command\<lparr>cmd_id := ''cmd-2''\<rparr>]) \<and>
   getCommand ''cmd-1''
     (snd (updateCommand ''cmd-1'' (no_updates\<lparr>upd_id := Some ''cmd-2''\<rparr>)
        (Stored [example_command]))) = None"
  by (simp add: updateCommand_def getCommand_def example_command_def no_updates_def
      spread_updates_def spread_key_def spread_optional_key_def Let_def)

text \<open>
  Claim C2, amended. When no stored record has the identifier (or the log is absent or
  unreadable), \<open>updateCommand\<close> returns \<^verbatim>\<open>null\<close> and leaves the log as it is. Otherwise it
  takes the first record with that identifier, replaces it in place by the record merged
  with the given fields, and returns the merged record; the identifier of the merged
  record is the original one when the fields carry no identifier, and the given one when
  they do.
\<close>

theorem updateCommand_merges_first_match:
  "(getCommand i store = None \<longrightarrow> updateCommand i u store = (None, store)) \<and>
   (\<forall>c. getCommand i store = Some c \<longrightarrow>
      (\<exists>k allCommands.
         store = Stored allCommands \<and> k < length allCommands \<and> allCommands ! k = c \<and>
         cmd_id c = i \<and> (\<forall>j < k. cmd_id (allCommands ! j) \<noteq> i) \<and>
         updateCommand i u store =
           (Some (spread_updates c u), Stored (allCommands[k := spread_updates c u])) \<and>
         cmd_id (spread_updates c u) = (case upd_id u of None \<Rightarrow> i | Some j \<Rightarrow> j)))"
proof (cases store)
  case (Stored allCommands)
  show ?thesis
  proof (cases "findIndex (\<lambda>cmd. cmd_id cmd = i) allCommands")
    case None
    then have "find (\<lambda>cmd. cmd_id cmd = i) allCommands = None"
      by (simp add: findIndex_find_None)
    with None Stored show ?thesis
      by (simp add: updateCommand_def getCommand_def)
  next
    case (Some k)
    from findIndex_Some [OF Some]
    have k: "k < length allCommands" "cmd_id (allCommands ! k) = i"
      "find (\<lambda>cmd. cmd_id cmd = i) allCommands = Some (allCommands ! k)"
      "\<forall>j < k. cmd_id (allCommands ! j) \<noteq> i"
      by simp_all
    have "cmd_id (spread_updates (allCommands ! k) u) = (case upd_id u of None \<Rightarrow> i | Some j \<Rightarrow> j)"
      using k(2) by (simp add: spread_updates_def spread_key_def)
    with Some Stored k show ?thesis
      by (auto simp: updateCommand_def getCommand_def Let_def)
  qed
qed (auto simp: updateCommand_def getCommand_def)

text \<open>
  The amended claim C2 at a log of one command: a status update of \<open>cmd-1\<close> is merged and
  keeps the identifier, and an update of the unknown \<open>cmd-9\<close> changes nothing.
\<close>

theorem updateCommand_merges_first_match_witness:
  "getCommand ''cmd-1'' (Stored [example_command]) = Some example_command \<and>
   fst (updateCommand ''cmd-1'' (no_updates\<lparr>upd_status := Some executed\<rparr>) (Stored [example_command]))
     = Some (example_command\<lparr>command_input.status := executed\<rparr>) \<and>
   cmd_id (spread_updates example_command (no_updates\<lparr>upd_status := Some executed\<rparr>)) = ''cmd-1'' \<and>
   getCommand ''cmd-9'' (Stored [example_command]) = None \<and>
   updateCommand ''cmd-9'' (no_updates\<lparr>upd_status := Some executed\<rparr>) (Stored [example_command])
     = (None, Stored [example_command])"
proof -
  have g1: "getCommand ''cmd-1'' (Stored [example_command]) = Some example_command"
    by (simp add: getCommand_def example_command_def)
  have g9: "getCommand ''cmd-9'' (Stored [example_command]) = None"
    by (simp add: getCommand_def example_command_def)
  have m: "spread_updates example_command (no_updates\<lparr>upd_status := Some executed\<rparr>)
             = example_command\<lparr>command_input.status := executed\<rparr>"
    by (simp add: example_command_def no_updates_def spread_updates_def spread_key_def
        spread_optional_key_def)
  from updateCommand_merges_first_match
         [of "''cmd-1''" "Stored [example_command]" "no_updates\<lparr>upd_status := Some executed\<rparr>"] g1
  have a: "fst (updateCommand ''cmd-1'' (no_updates\<lparr>upd_status := Some executed\<rparr>)
                 (Stored [example_command]))
             = Some (spread_updates example_command (no_updates\<lparr>upd_status := Some executed\<rparr>)) \<and>
           cmd_id (spread_updates example_command (no_updates\<lparr>upd_status := Some executed\<rparr>))
             = ''cmd-1''"
    by (auto simp: no_updates_def)
  from updateCommand_merges_first_match
         [of "''cmd-9''" "Stored [example_command]" "no_updates\<lparr>upd_status := Some executed\<rparr>"] g9
  have b: "updateCommand ''cmd-9'' (no_updates\<lparr>upd_status := Some executed\<rparr>) (Stored [example_command])
             = (None, Stored [example_command])"
    by simp
  from g1 g9 a b m show ?thesis by simp
qed


section \<open>Properties of the REST client\<close>

lemma btoa_octets: "list_all (\<lambda>c. c \<le> 255) s \<Longrightarrow> btoa s = Inr (b64_encode s)"
  by (simp add: btoa_def)

lemma btoa_throws: "\<not> list_all (\<lambda>c. c \<le> 255) s \<Longrightarrow> btoa s = Inl InvalidCharacterError"
  by (simp add: btoa_def)





text \<open>Base64 at the three lengths of a final group.\<close>

lemma btoa_examples:
  "btoa (units ''a'') = Inr ''YQ=='' \<and> btoa (units ''ab'') = Inr ''YWI='' \<and>
   btoa (units ''abc'') = Inr ''YWJj'' \<and> btoa (units ''user:pass'') = Inr ''dXNlcjpwYXNz'' \<and>
   btoa [255, 254, 253] = Inr ''//79'' \<and> btoa [256] = Inl InvalidCharacterError"
  by code_simp

text \<open>
  Claim C8, as stated, fails for a successful response without a JSON body: the server
  answers a \<open>DELETE\<close> with \<open>204 No Content\<close>, \<^verbatim>\<open>response.ok\<close> holds, and \<open>apiRequest\<close> raises
  the syntax error of \<^verbatim>\<open>response.json()\<close>.
\<close>

theorem success_without_json_body_counterexample:
  "ok no_content \<and>
   apiRequest (Stored example_token_config) (always_respond no_content) ''/api/devices/7''
     (no_init\<lparr>req_method := Some ''DELETE''\<rparr>) = Inl SyntaxError"
  by code_simp

text \<open>
  Claim C8, amended. With a valid stored configuration and a request that receives a
  response: status 401 raises the authentication error, status 404 raises the not-found
  error, any other status outside 200 to 299 raises the API error carrying the status
  code and the status text; a status from 200 to 299 returns the parsed body when the
  body is JSON. (When building the headers throws, no request is sent and that error is
  the result.)
\<close>

theorem apiRequest_response_mapping:
  assumes "getTraccarConfig stored_config = Some cfg" and "isValid cfg"
  shows "apiRequest stored_config (always_respond r) endpoint options =
     (case getAuthHeaders cfg of
        Inl err \<Rightarrow> Inl err
      | Inr headers \<Rightarrow>
          (if ok r then (case body r of None \<Rightarrow> Inl SyntaxError | Some v \<Rightarrow> Inr v)
           else if status r = 401 then
             Inl (Error ''Authentication failed. Please check your Traccar credentials.'')
           else if status r = 404 then Inl (Error ''Resource not found.'')
           else Inl (Error (''Traccar API error: '' @ number_to_string (status r) @ '' ''
                      @ statusText r))))"
  using assms by (simp add: apiRequest_def always_respond_def Let_def split: sum.splits)

text \<open>
  The amended claim C8 at the statuses 401, 404, 503 and 200.
\<close>

theorem apiRequest_response_mapping_witness:
  "getTraccarConfig (Stored example_token_config) = Some example_token_config \<and>
   isValid example_token_config \<and>
   apiRequest (Stored example_token_config)
     (always_respond \<lparr>status = 401, statusText = ''Unauthorized'', body = None :: string option\<rparr>)
     ''/api/devices'' no_init
     = Inl (Error ''Authentication failed. Please check your Traccar credentials.'') \<and>
   apiRequest (Stored example_token_config)
     (always_respond \<lparr>status = 404, statusText = ''Not Found'', body = None :: string option\<rparr>)
     ''/api/devices'' no_init
     = Inl (Error ''Resource not found.'') \<and>
   apiRequest (Stored example_token_config)
     (always_respond
        \<lparr>status = 503, statusText = ''Service Unavailable'', body = None :: string option\<rparr>)
     ''/api/devices'' no_init
     = Inl (Error ''Traccar API error: 503 Service Unavailable'') \<and>
   apiRequest (Stored example_token_config)
     (always_respond \<lparr>status = 200, statusText = ''OK'', body = Some ''[]''\<rparr>)
     ''/api/devices'' no_init
     = Inr ''[]''"
proof -
  have g: "getTraccarConfig (Stored example_token_config) = Some example_token_config"
    by (simp add: getTraccarConfig_def)
  have v: "isValid example_token_config"
    by (simp add: example_token_config_def)
  have n: "number_to_string 503 = ''503''"
    by code_simp
  have h: "getAuthHeaders example_token_config =
     Inr [''Content-Type'' \<mapsto> ''application/json'', ''Authorization'' \<mapsto> ''Bearer abc'']"
    by (simp add: getAuthHeaders_def example_token_config_def truthy_def)
  note m = apiRequest_response_mapping [OF g v, unfolded h sum.case]
  have 1: "apiRequest (Stored example_token_config)
     (always_respond \<lparr>status = 401, statusText = ''Unauthorized'', body = None :: string option\<rparr>)
     ''/api/devices'' no_init
     = Inl (Error ''Authentication failed. Please check your Traccar credentials.'')"
    by (simp add: m ok_def)
  have 2: "apiRequest (Stored example_token_config)
     (always_respond \<lparr>status = 404, statusText = ''Not Found'', body = None :: string option\<rparr>)
     ''/api/devices'' no_init
     = Inl (Error ''Resource not found.'')"
    by (simp add: m ok_def)
  have 3: "apiRequest (Stored example_token_config)
     (always_respond
        \<lparr>status = 503, statusText = ''Service Unavailable'', body = None :: string option\<rparr>)
     ''/api/devices'' no_init
     = Inl (Error ''Traccar API error: 503 Service Unavailable'')"
    by (simp add: m ok_def n)
  have 4: "apiRequest (Stored example_token_config)
     (always_respond \<lparr>status = 200, statusText = ''OK'', body = Some ''[]''\<rparr>)
     ''/api/devices'' no_init
     = Inr ''[]''"
    by (simp add: m ok_def)
  from g v 1 2 3 4 show ?thesis by simp
qed


section \<open>Properties of the realtime client\<close>

subsection \<open>Endpoint\<close>

lemma replace_http:
  "replace_prefix ''http:'' r s = (if take 5 s = ''http:'' then r @ drop 5 s else s)"
  by (simp add: replace_prefix_def eval_nat_numeral)

lemma replace_https:
  "replace_prefix ''https:'' r s = (if take 6 s = ''https:'' then r @ drop 6 s else s)"
  by (simp add: replace_prefix_def eval_nat_numeral)

lemma https_not_http: "take 6 url = ''https:'' \<Longrightarrow> take 5 url \<noteq> ''http:''"
proof -
  assume a: "take 6 url = ''https:''"
  have "take 5 url = take 5 (take 6 url)" by simp
  also have "\<dots> = ''https''" unfolding a by simp
  finally show ?thesis by simp
qed

lemma scheme_substitution_spec:
  "replace_prefix ''https:'' ''wss:'' (replace_prefix ''http:'' ''ws:'' url)
     = spec_scheme_substitution url"
proof (cases "take 6 url = ''https:''")
  case True
  then show ?thesis
    using https_not_http [OF True]
    by (simp add: spec_scheme_substitution_def replace_http replace_https)
next
  case False
  then show ?thesis
    by (simp add: spec_scheme_substitution_def replace_http replace_https)
qed

lemma strip_trailing_slash_spec: "strip_trailing_slash s = spec_without_trailing_slash s"
  by (cases s rule: rev_cases)
     (simp_all add: strip_trailing_slash_def spec_without_trailing_slash_def)

lemma wsUrl_spec: "wsUrl url = spec_realtime_endpoint url"
  by (simp add: wsUrl_def spec_realtime_endpoint_def scheme_substitution_spec
      strip_trailing_slash_spec)

lemma wsUrl_https_slash: "wsUrl (''https:'' @ rest @ ''/'') = ''wss:'' @ rest @ ''/api/socket''"
  by (simp add: wsUrl_def replace_http replace_https strip_trailing_slash_def butlast_append)

lemma wsUrl_http_slash: "wsUrl (''http:'' @ rest @ ''/'') = ''ws:'' @ rest @ ''/api/socket''"
  by (simp add: wsUrl_def replace_http replace_https strip_trailing_slash_def butlast_append)

text \<open>
  Claim C6. For every base URL, the URL computed by \<open>connect\<close> is the one the design
  document describes: scheme \<open>http\<close> to \<open>ws\<close> and \<open>https\<close> to \<open>wss\<close>, a trailing slash
  removed, \<open>/api/socket\<close> appended. A first \<open>connect\<close> constructs its socket with that URL.
  Whatever stands between the scheme and a final slash, the slash is gone from the
  endpoint; of two final slashes one is left; and for \<open>https://x.test\<close> the endpoint is
  \<open>wss://x.test/api/socket\<close>.
\<close>

theorem realtime_endpoint_derivation:
  "wsUrl url = spec_realtime_endpoint url \<and>
   sockets (connect any_url_ok (Some cfg) initial_rt) = [(wsUrl (serverUrl cfg), CONNECTING)] \<and>
   wsUrl ''https://x.test'' = ''wss://x.test/api/socket'' \<and>
   wsUrl (''https:'' @ rest @ ''/'') = ''wss:'' @ rest @ ''/api/socket'' \<and>
   wsUrl (''http:'' @ rest @ ''/'') = ''ws:'' @ rest @ ''/api/socket'' \<and>
   wsUrl ''https://x.test/'' = ''wss://x.test/api/socket'' \<and>
   wsUrl ''http://x.test:8082/'' = ''ws://x.test:8082/api/socket'' \<and>
   wsUrl ''http://x.test'' = ''ws://x.test/api/socket'' \<and>
   wsUrl ''https://x.test//'' = ''wss://x.test//api/socket'' \<and>
   wsUrl ''x.test/'' = ''x.test/api/socket''"
proof -
  have "wsUrl ''https://x.test'' = ''wss://x.test/api/socket''"
    "wsUrl ''https://x.test/'' = ''wss://x.test/api/socket''"
    "wsUrl ''http://x.test:8082/'' = ''ws://x.test:8082/api/socket''"
    "wsUrl ''http://x.test'' = ''ws://x.test/api/socket''"
    "wsUrl ''https://x.test//'' = ''wss://x.test//api/socket''"
    "wsUrl ''x.test/'' = ''x.test/api/socket''"
    by (simp_all add: wsUrl_def replace_http replace_https strip_trailing_slash_def)
  moreover have
    "sockets (connect any_url_ok (Some cfg) initial_rt) = [(wsUrl (serverUrl cfg), CONNECTING)]"
    by (simp add: connect_def initial_rt_def isConnected_def any_url_ok_def Let_def)
  ultimately show ?thesis
    using wsUrl_spec [of url] wsUrl_https_slash [of rest] wsUrl_http_slash [of rest]
    by (intro conjI)
qed

subsection \<open>Fields left alone by the auxiliary operations\<close>

lemma map_fst_update_same: "map fst (xs[i := (fst (xs ! i), v)]) = map fst xs"
proof (cases "i < length xs")
  case True
  then show ?thesis by (simp add: map_update list_update_same_conv)
next
  case False
  then have "xs[i := (fst (xs ! i), v)] = xs" by (intro list_update_beyond) simp
  then show ?thesis by simp
qed

lemma set_readyState_fields [simp]:
  "ws (set_readyState i st w) = ws w"
  "config (set_readyState i st w) = config w"
  "reconnectAttempts (set_readyState i st w) = reconnectAttempts w"
  "handlers (set_readyState i st w) = handlers w"
  "isConnecting (set_readyState i st w) = isConnecting w"
  "timers (set_readyState i st w) = timers w"
  "console (set_readyState i st w) = console w"
  "delivered (set_readyState i st w) = delivered w"
  "length (sockets (set_readyState i st w)) = length (sockets w)"
  "map fst (sockets (set_readyState i st w)) = map fst (sockets w)"
  by (simp_all add: set_readyState_def map_fst_update_same)

lemma console_log_fields [simp]:
  "ws (console_log l w) = ws w"
  "config (console_log l w) = config w"
  "reconnectAttempts (console_log l w) = reconnectAttempts w"
  "handlers (console_log l w) = handlers w"
  "isConnecting (console_log l w) = isConnecting w"
  "timers (console_log l w) = timers w"
  "sockets (console_log l w) = sockets w"
  "delivered (console_log l w) = delivered w"
  "console (console_log l w) = console w @ [l]"
  by (simp_all add: console_log_def)

lemma mark_fired_fields [simp]:
  "ws (mark_fired k w) = ws w"
  "config (mark_fired k w) = config w"
  "reconnectAttempts (mark_fired k w) = reconnectAttempts w"
  "handlers (mark_fired k w) = handlers w"
  "isConnecting (mark_fired k w) = isConnecting w"
  "sockets (mark_fired k w) = sockets w"
  "console (mark_fired k w) = console w"
  "delivered (mark_fired k w) = delivered w"
  "length (timers (mark_fired k w)) = length (timers w)"
  "map fst (timers (mark_fired k w)) = map fst (timers w)"
  by (simp_all add: mark_fired_def map_fst_update_same)

lemma disconnect_fields:
  "config (disconnect w) = None" "timers (disconnect w) = timers w"
  "map fst (sockets (disconnect w)) = map fst (sockets w)"
  "reconnectAttempts (disconnect w) = 0" "ws (disconnect w) = None"
  by (simp_all add: disconnect_def ws_close_def Let_def split: option.splits)

subsection \<open>Scheduling a reconnect\<close>

lemma attemptReconnect_schedules:
  assumes "reconnectAttempts w < maxReconnectAttempts" and "config w \<noteq> None"
  shows "attemptReconnect w =
           w\<lparr>reconnectAttempts := reconnectAttempts w + 1,
             timers := timers w @ [(reconnectDelay * 2 ^ reconnectAttempts w, Pending)]\<rparr>"
  using assms by (simp add: attemptReconnect_def Let_def)

lemma attemptReconnect_capped:
  assumes "maxReconnectAttempts \<le> reconnectAttempts w"
  shows "attemptReconnect w = console_log ''Max reconnection attempts reached'' w"
  using assms by (simp add: attemptReconnect_def)

lemma attemptReconnect_counter: "reconnectAttempts w \<le> reconnectAttempts (attemptReconnect w)"
  by (simp add: attemptReconnect_def Let_def)

text \<open>
  Claim C4, as stated, fails for the error event: a client that is connecting, holds its
  configuration and has made no attempt yet receives \<open>error\<close> on its socket, and no timer
  is scheduled (a \<open>close\<close> on the same socket schedules one).
\<close>

theorem error_event_schedules_nothing_counterexample:
  "isConnecting example_connecting \<and> ws example_connecting = Some 0 \<and>
   readyState example_connecting 0 = CONNECTING \<and>
   config example_connecting = Some example_token_config \<and>
   reconnectAttempts example_connecting = 0 \<and>
   timers (rt_step any_url_ok (SocketError 0) example_connecting) = [] \<and>
   reconnectAttempts (rt_step any_url_ok (SocketError 0) example_connecting) = 0"
  by code_simp

text \<open>
  Claim C4, amended. For a client whose current socket is connecting or open, with a
  stored configuration and fewer than the maximum number of attempts: a close event of
  that socket schedules a reconnect (one more pending timer, with the backoff delay, and
  the attempt counter raised by one); an error event schedules nothing, it only clears
  the connecting flag.
\<close>

theorem close_schedules_reconnect_error_does_not:
  assumes "ws w = Some i" and "i < length (sockets w)"
    and "readyState w i = CONNECTING \<or> readyState w i = OPEN"
    and "config w \<noteq> None" and "reconnectAttempts w < maxReconnectAttempts"
  shows "timers (rt_step ctor_ok (SocketClose i) w)
           = timers w @ [(reconnectDelay * 2 ^ reconnectAttempts w, Pending)] \<and>
         reconnectAttempts (rt_step ctor_ok (SocketClose i) w) = reconnectAttempts w + 1 \<and>
         timers (rt_step ctor_ok (SocketError i) w) = timers w \<and>
         reconnectAttempts (rt_step ctor_ok (SocketError i) w) = reconnectAttempts w \<and>
         \<not> isConnecting (rt_step ctor_ok (SocketError i) w)"
proof -
  let ?w' = "(console_log ''Traccar WebSocket disconnected'' (set_readyState i CLOSED w))
               \<lparr>isConnecting := False\<rparr>"
  have "reconnectAttempts ?w' < maxReconnectAttempts" "config ?w' \<noteq> None"
    using assms by simp_all
  from attemptReconnect_schedules [OF this]
  have "onclose (set_readyState i CLOSED w) =
          ?w'\<lparr>reconnectAttempts := reconnectAttempts ?w' + 1,
               timers := timers ?w' @ [(reconnectDelay * 2 ^ reconnectAttempts ?w', Pending)]\<rparr>"
    by (simp add: onclose_def)
  then have "timers (onclose (set_readyState i CLOSED w))
               = timers w @ [(reconnectDelay * 2 ^ reconnectAttempts w, Pending)] \<and>
             reconnectAttempts (onclose (set_readyState i CLOSED w)) = reconnectAttempts w + 1"
    by simp
  moreover have "readyState w i \<noteq> CLOSED" using assms(3) by auto
  ultimately show ?thesis
    using assms(2) by (simp add: rt_step_def onerror_def)
qed

text \<open>The amended claim C4 at the connecting example client.\<close>

theorem close_schedules_reconnect_error_does_not_witness:
  "ws example_connecting = Some 0 \<and> 0 < length (sockets example_connecting) \<and>
   readyState example_connecting 0 = CONNECTING \<and> config example_connecting \<noteq> None \<and>
   reconnectAttempts example_connecting < maxReconnectAttempts \<and>
   timers (rt_step any_url_ok (SocketClose 0) example_connecting) = [(3000, Pending)] \<and>
   timers (rt_step any_url_ok (SocketError 0) example_connecting) = [] \<and>
   \<not> isConnecting (rt_step any_url_ok (SocketError 0) example_connecting)"
proof -
  have h: "ws example_connecting = Some 0" "0 < length (sockets example_connecting)"
    "readyState example_connecting 0 = CONNECTING \<or> readyState example_connecting 0 = OPEN"
    "config example_connecting \<noteq> None"
    "reconnectAttempts example_connecting < maxReconnectAttempts"
    by code_simp+
  have v: "readyState example_connecting 0 = CONNECTING" "timers example_connecting = []"
    "reconnectAttempts example_connecting = 0" "reconnectDelay = 3000"
    by code_simp+
  from close_schedules_reconnect_error_does_not [OF h, of any_url_ok] h v
  show ?thesis by simp
qed

subsection \<open>The backoff sequence\<close>

lemma failure_cycle_Suc: "failure_cycle (Suc k) = failure_cycle k @ [SocketClose k, TimerFires k]"
  by (simp add: failure_cycle_def)

lemma rt_run_append: "rt_run ctor_ok (es @ es') w = rt_run ctor_ok es' (rt_run ctor_ok es w)"
  by (simp add: rt_run_def)

lemmas rt_defs = rt_step_def connect_def onclose_def attemptReconnect_def reconnect_callback_def
  isConnected_def readyState_def set_readyState_def console_log_def mark_fired_def pending_def
  maxReconnectAttempts_def reconnectDelay_def initial_rt_def Let_def

lemma delays_up_to_five_failures:
  assumes "ctor_ok (wsUrl (serverUrl cfg))"
  shows "map fst (timers (rt_run ctor_ok (CallConnect cfg # failure_cycle 0) initial_rt)) = []"
    and "map fst (timers (rt_run ctor_ok (CallConnect cfg # failure_cycle 1) initial_rt)) = [3000]"
    and "map fst (timers (rt_run ctor_ok (CallConnect cfg # failure_cycle 2) initial_rt))
           = [3000, 6000]"
    and "map fst (timers (rt_run ctor_ok (CallConnect cfg # failure_cycle 3) initial_rt))
           = [3000, 6000, 12000]"
    and "map fst (timers (rt_run ctor_ok (CallConnect cfg # failure_cycle 4) initial_rt))
           = [3000, 6000, 12000, 24000]"
    and "map fst (timers (rt_run ctor_ok (CallConnect cfg # failure_cycle 5) initial_rt))
           = [3000, 6000, 12000, 24000, 48000]"
  using assms
  by (simp_all add: failure_cycle_def upt_rec[of _ "numeral _"] rt_run_def rt_defs)

lemma after_six_failures:
  assumes "ctor_ok (wsUrl (serverUrl cfg))"
  shows "map fst (timers (rt_run ctor_ok (CallConnect cfg # failure_cycle 6) initial_rt))
           = [3000, 6000, 12000, 24000, 48000] \<and>
         length (sockets (rt_run ctor_ok (CallConnect cfg # failure_cycle 6) initial_rt)) = 6 \<and>
         reconnectAttempts (rt_run ctor_ok (CallConnect cfg # failure_cycle 6) initial_rt) = 5 \<and>
         \<not> isConnecting (rt_run ctor_ok (CallConnect cfg # failure_cycle 6) initial_rt) \<and>
         \<not> isConnected (rt_run ctor_ok (CallConnect cfg # failure_cycle 6) initial_rt)"
  using assms
  by (simp add: failure_cycle_def upt_rec[of _ "numeral _"] rt_run_def rt_defs)

lemma beyond_noop:
  assumes "length (sockets w) \<le> i" and "length (timers w) \<le> i"
  shows "rt_step ctor_ok (TimerFires i) (rt_step ctor_ok (SocketClose i) w) = w"
  using assms by (simp add: rt_step_def pending_def)

lemma more_failures_change_nothing:
  assumes "ctor_ok (wsUrl (serverUrl cfg))"
  shows "rt_run ctor_ok (CallConnect cfg # failure_cycle (6 + n)) initial_rt
           = rt_run ctor_ok (CallConnect cfg # failure_cycle 6) initial_rt"
proof (induction n)
  case 0
  show ?case by simp
next
  case (Suc n)
  let ?w = "rt_run ctor_ok (CallConnect cfg # failure_cycle 6) initial_rt"
  have len: "length (sockets ?w) = 6" "length (timers ?w) = 5"
    using after_six_failures [of ctor_ok cfg, OF assms]
    by (simp_all flip: length_map [of fst "timers _"])
  have "rt_run ctor_ok (CallConnect cfg # failure_cycle (Suc (6 + n))) initial_rt
        = rt_run ctor_ok [SocketClose (6 + n), TimerFires (6 + n)]
            (rt_run ctor_ok (CallConnect cfg # failure_cycle (6 + n)) initial_rt)"
    unfolding failure_cycle_Suc append_Cons [symmetric] rt_run_append ..
  then have "rt_run ctor_ok (CallConnect cfg # failure_cycle (6 + Suc n)) initial_rt
        = rt_run ctor_ok [SocketClose (6 + n), TimerFires (6 + n)]
            (rt_run ctor_ok (CallConnect cfg # failure_cycle (6 + n)) initial_rt)"
    by simp
  also have "\<dots> = rt_run ctor_ok [SocketClose (6 + n), TimerFires (6 + n)] ?w"
    unfolding Suc.IH ..
  also have "\<dots> = rt_step ctor_ok (TimerFires (6 + n)) (rt_step ctor_ok (SocketClose (6 + n)) ?w)"
    by (simp add: rt_run_def)
  also have "\<dots> = ?w" by (rule beyond_noop) (simp_all add: len)
  finally show ?case .
qed

text \<open>
  Claim C5. The base delay is 3000 ms and the cap is five attempts. A client that
  connects (to a URL the socket constructor accepts) and then fails \<open>k\<close> times in a row,
  each failure being the close of the current socket followed by the scheduled timer
  running, has scheduled exactly the first \<open>k\<close> of the delays 3000, 6000, 12000, 24000,
  48000: the five of them after five failures, and no sixth however many failures follow.
  In any state, \<open>attemptReconnect\<close> below the cap raises the attempt counter to \<open>n\<close> and
  schedules the delay \<open>3000 * 2 ^ (n - 1)\<close>; at the cap it schedules nothing.
\<close>

theorem reconnect_delay_sequence:
  assumes "ctor_ok (wsUrl (serverUrl cfg))"
  shows "reconnectDelay = 3000 \<and> maxReconnectAttempts = 5 \<and>
         map fst (timers (rt_run ctor_ok (CallConnect cfg # failure_cycle k) initial_rt))
           = take k [3000, 6000, 12000, 24000, 48000] \<and>
         (reconnectAttempts w < maxReconnectAttempts \<and> config w \<noteq> None \<longrightarrow>
            reconnectAttempts (attemptReconnect w) = reconnectAttempts w + 1 \<and>
            timers (attemptReconnect w)
              = timers w @ [(reconnectDelay * 2 ^ (reconnectAttempts (attemptReconnect w) - 1),
                             Pending)]) \<and>
         (maxReconnectAttempts \<le> reconnectAttempts w \<longrightarrow>
            timers (attemptReconnect w) = timers w \<and>
            reconnectAttempts (attemptReconnect w) = reconnectAttempts w)"
proof -
  have "k = 0 \<or> k = 1 \<or> k = 2 \<or> k = 3 \<or> k = 4 \<or> k = 5 \<or> (\<exists>n. k = 6 + n)"
    by presburger
  then consider "k = 0" | "k = 1" | "k = 2" | "k = 3" | "k = 4" | "k = 5" | n where "k = 6 + n"
    by blast
  then have seq: "map fst (timers (rt_run ctor_ok (CallConnect cfg # failure_cycle k) initial_rt))
           = take k [3000, 6000, 12000, 24000, 48000]"
  proof cases
    case 7
    then show ?thesis
      using more_failures_change_nothing [of ctor_ok cfg n, OF assms]
        after_six_failures [of ctor_ok cfg, OF assms]
      by simp
  qed (use delays_up_to_five_failures [of ctor_ok cfg, OF assms] in simp_all)
  have below: "reconnectAttempts w < maxReconnectAttempts \<and> config w \<noteq> None \<longrightarrow>
            reconnectAttempts (attemptReconnect w) = reconnectAttempts w + 1 \<and>
            timers (attemptReconnect w)
              = timers w @ [(reconnectDelay * 2 ^ (reconnectAttempts (attemptReconnect w) - 1),
                             Pending)]"
    by (simp add: attemptReconnect_schedules)
  have cap: "maxReconnectAttempts \<le> reconnectAttempts w \<longrightarrow>
            timers (attemptReconnect w) = timers w \<and>
            reconnectAttempts (attemptReconnect w) = reconnectAttempts w"
    by (simp add: attemptReconnect_capped)
  from seq below cap show ?thesis
    by (simp add: reconnectDelay_def maxReconnectAttempts_def)
qed

text \<open>
  The theorem of claim C5 at the example configuration: after seven failures in a row the
  delays scheduled are the five of the sequence; the client with one failed attempt
  schedules 6000 ms next, and the client that used up its attempts schedules nothing.
\<close>

theorem reconnect_delay_sequence_witness:
  "any_url_ok (wsUrl (serverUrl example_token_config)) \<and>
   map fst (timers (rt_run any_url_ok (CallConnect example_token_config # failure_cycle 7)
      initial_rt)) = [3000, 6000, 12000, 24000, 48000] \<and>
   reconnectAttempts example_backoff_pending < maxReconnectAttempts \<and>
   config example_backoff_pending \<noteq> None \<and>
   timers (attemptReconnect example_backoff_pending) = [(3000, Pending), (6000, Pending)] \<and>
   maxReconnectAttempts \<le> reconnectAttempts example_exhausted \<and>
   timers (attemptReconnect example_exhausted) = timers example_exhausted"
proof -
  have a: "any_url_ok (wsUrl (serverUrl example_token_config))"
    by (simp add: any_url_ok_def)
  have b: "reconnectAttempts example_backoff_pending < maxReconnectAttempts \<and>
           config example_backoff_pending \<noteq> None"
    by code_simp
  have b': "reconnectAttempts example_backoff_pending = 1"
    "timers example_backoff_pending = [(3000, Pending)]"
    by code_simp+
  have e: "maxReconnectAttempts \<le> reconnectAttempts example_exhausted"
    using after_six_failures [of any_url_ok example_token_config, OF a]
    by (simp add: example_exhausted_def maxReconnectAttempts_def)
  from reconnect_delay_sequence [of any_url_ok example_token_config 7 example_backoff_pending, OF a] b
  have 1: "map fst (timers (rt_run any_url_ok (CallConnect example_token_config # failure_cycle 7)
      initial_rt)) = [3000, 6000, 12000, 24000, 48000] \<and>
      timers (attemptReconnect example_backoff_pending) = [(3000, Pending), (6000, Pending)]"
    by (simp add: b')
  from reconnect_delay_sequence [of any_url_ok example_token_config 7 example_exhausted, OF a] e
  have 2: "timers (attemptReconnect example_exhausted) = timers example_exhausted"
    by simp
  from a b e 1 2 show ?thesis by simp
qed


subsection \<open>Disconnecting while a reconnect is scheduled\<close>

lemma connect_None_quiet:
  assumes "config w = None"
  shows "config (connect ctor_ok None w) = None \<and> sockets (connect ctor_ok None w) = sockets w \<and>
         timers (connect ctor_ok None w) = timers w"
  using assms by (simp add: connect_def Let_def attemptReconnect_def)

lemma onclose_quiet:
  assumes "config w = None"
  shows "config (onclose w) = None \<and> sockets (onclose w) = sockets w \<and>
         timers (onclose w) = timers w"
  using assms by (simp add: onclose_def attemptReconnect_def)

lemma quiet_step:
  assumes "config w = None" and "\<not> explicit_connect e"
  shows "config (rt_step ctor_ok e w) = None \<and>
         map fst (sockets (rt_step ctor_ok e w)) = map fst (sockets w) \<and>
         map fst (timers (rt_step ctor_ok e w)) = map fst (timers w)"
proof (cases e)
  case (CallConnect cfg)
  with assms show ?thesis by (simp add: explicit_connect_def)
next
  case CallDisconnect
  then show ?thesis
    by (simp add: rt_step_def disconnect_fields)
next
  case (SocketClose i)
  have "config (set_readyState i CLOSED w) = None" using assms by simp
  from onclose_quiet [OF this] SocketClose assms show ?thesis
    by (simp add: rt_step_def)
next
  case (TimerFires k)
  have "config (console_log l (mark_fired k w)) = None" for l using assms by simp
  from connect_None_quiet [OF this] TimerFires assms show ?thesis
    by (simp add: rt_step_def reconnect_callback_def)
qed (use assms in \<open>auto simp: rt_step_def subscribe_def unsubscribe_def onerror_def onmessage_def
     handleMessage_def notifyHandlers_def onopen_def Let_def split: option.splits\<close>)

lemma quiet_run:
  assumes "config w = None" and "\<forall>e \<in> set es. \<not> explicit_connect e"
  shows "config (rt_run ctor_ok es w) = None \<and>
         map fst (sockets (rt_run ctor_ok es w)) = map fst (sockets w) \<and>
         map fst (timers (rt_run ctor_ok es w)) = map fst (timers w)"
  using assms
proof (induction es arbitrary: w)
  case Nil
  then show ?case by (simp add: rt_run_def)
next
  case (Cons e es)
  from Cons.prems have q: "config (rt_step ctor_ok e w) = None \<and>
         map fst (sockets (rt_step ctor_ok e w)) = map fst (sockets w) \<and>
         map fst (timers (rt_step ctor_ok e w)) = map fst (timers w)"
    by (intro quiet_step) simp_all
  from Cons.IH [of "rt_step ctor_ok e w"] q Cons.prems(2)
  show ?case by (simp add: rt_run_def)
qed

text \<open>
  Claim C3, as stated, fails: \<open>disconnect\<close> does not cancel the timer. The example client
  has a reconnect scheduled that has not run; after \<open>disconnect\<close> the timer is still
  pending, and when it runs its callback calls \<open>connect\<close>, which logs the attempt and its
  failure.
\<close>

theorem disconnect_keeps_timer_counterexample:
  "pending example_backoff_pending 0 \<and> pending (disconnect example_backoff_pending) 0 \<and>
   console (rt_step any_url_ok (TimerFires 0) (disconnect example_backoff_pending))
     = [''Traccar WebSocket disconnected'', ''Attempting to reconnect (0/5)...'',
        ''Failed to create WebSocket connection:'']"
  by code_simp

text \<open>
  Claim C3, amended. \<open>disconnect\<close> leaves the timers as they are and clears the stored
  configuration. From then on, as long as \<open>connect\<close> is not called explicitly, whatever
  happens (the pending timer running its callback, events of old sockets, subscriptions):
  no socket is constructed, no timer is scheduled, and the configuration stays cleared.
\<close>

theorem disconnect_silences_pending_timer:
  assumes "\<forall>e \<in> set es. \<not> explicit_connect e"
  shows "timers (disconnect w) = timers w \<and>
         map fst (sockets (rt_run ctor_ok es (disconnect w))) = map fst (sockets w) \<and>
         map fst (timers (rt_run ctor_ok es (disconnect w))) = map fst (timers w) \<and>
         config (rt_run ctor_ok es (disconnect w)) = None"
  using quiet_run [OF disconnect_fields(1) assms, of ctor_ok w] by (simp add: disconnect_fields)

text \<open>
  The amended claim C3 at the example client: after \<open>disconnect\<close>, the timer runs and the
  old socket reports an error; there is still the one socket and the one timer.
\<close>

theorem disconnect_silences_pending_timer_witness:
  "\<not> explicit_connect (TimerFires 0) \<and> \<not> explicit_connect (SocketError 0) \<and>
   map fst (sockets (rt_run any_url_ok [TimerFires 0, SocketError 0]
      (disconnect example_backoff_pending))) = [''wss://x.test/api/socket''] \<and>
   map fst (timers (rt_run any_url_ok [TimerFires 0, SocketError 0]
      (disconnect example_backoff_pending))) = [3000] \<and>
   config (rt_run any_url_ok [TimerFires 0, SocketError 0] (disconnect example_backoff_pending))
     = None"
proof -
  have h: "\<forall>e \<in> set [TimerFires 0, SocketError 0]. \<not> explicit_connect e"
    by (simp add: explicit_connect_def)
  have v: "map fst (sockets example_backoff_pending) = [''wss://x.test/api/socket'']"
    "map fst (timers example_backoff_pending) = [3000]"
    by code_simp+
  from disconnect_silences_pending_timer [OF h, of example_backoff_pending any_url_ok] h v
  show ?thesis by simp
qed

text \<open>
  Once \<open>connect\<close> has been called again, the timer left over from before \<open>disconnect\<close> acts
  on the new configuration: here the new socket has closed, and the old timer constructs
  a third socket.
\<close>

lemma stale_timer_after_explicit_connect:
  "map fst (sockets (rt_run any_url_ok
        [CallConnect example_token_config, SocketClose 0, CallDisconnect,
         CallConnect example_token_config, SocketClose 1] initial_rt))
     = [''wss://x.test/api/socket'', ''wss://x.test/api/socket''] \<and>
   map fst (sockets (rt_run any_url_ok
        [CallConnect example_token_config, SocketClose 0, CallDisconnect,
         CallConnect example_token_config, SocketClose 1, TimerFires 0] initial_rt))
     = [''wss://x.test/api/socket'', ''wss://x.test/api/socket'', ''wss://x.test/api/socket'']"
  by code_simp

subsection \<open>The attempt counter\<close>

lemma connect_counter: "reconnectAttempts w \<le> reconnectAttempts (connect ctor_ok cfg w)"
proof -
  have "reconnectAttempts w \<le> reconnectAttempts (attemptReconnect
       ((console_log ''Failed to create WebSocket connection:''
           (w\<lparr>config := cfg, isConnecting := True\<rparr>))\<lparr>isConnecting := False\<rparr>))"
    using attemptReconnect_counter
            [of "(console_log ''Failed to create WebSocket connection:''
                   (w\<lparr>config := cfg, isConnecting := True\<rparr>))\<lparr>isConnecting := False\<rparr>"]
    by simp
  then show ?thesis
    by (auto simp: connect_def Let_def split: option.splits)
qed

lemma reconnect_callback_counter:
  "reconnectAttempts w \<le> reconnectAttempts (reconnect_callback ctor_ok w)"
  using connect_counter [of "console_log l w" ctor_ok "config w" for l]
  by (simp add: reconnect_callback_def)

lemma onclose_counter: "reconnectAttempts w \<le> reconnectAttempts (onclose w)"
  using attemptReconnect_counter
          [of "(console_log ''Traccar WebSocket disconnected'' w)\<lparr>isConnecting := False\<rparr>"]
  by (simp add: onclose_def)

lemma counter_kept_by_other_events:
  "reconnectAttempts w \<le> reconnectAttempts (rt_step ctor_ok e w) \<or> (\<exists>i. e = SocketOpen i) \<or>
   e = CallDisconnect"
proof (cases e)
  case (CallConnect cfg)
  then show ?thesis using connect_counter by (simp add: rt_step_def)
next
  case (TimerFires k)
  then show ?thesis
    using reconnect_callback_counter [of "mark_fired k w" ctor_ok]
    by (simp add: rt_step_def)
next
  case (SocketClose i)
  then show ?thesis
    using onclose_counter [of "set_readyState i CLOSED w"]
    by (simp add: rt_step_def)
qed (auto simp: rt_step_def subscribe_def unsubscribe_def onerror_def onmessage_def
     handleMessage_def notifyHandlers_def Let_def split: option.splits)

lemma connect_when_exhausted:
  assumes "maxReconnectAttempts \<le> reconnectAttempts w"
  shows "reconnectAttempts (connect ctor_ok (Some cfg) w) = reconnectAttempts w \<and>
         timers (connect ctor_ok (Some cfg) w) = timers w \<and>
         timers (rt_step ctor_ok (SocketClose i) (connect ctor_ok (Some cfg) w)) = timers w"
proof -
  let ?w' = "connect ctor_ok (Some cfg) w"
  have 1: "reconnectAttempts ?w' = reconnectAttempts w \<and> timers ?w' = timers w"
    using assms
    by (simp add: connect_def Let_def attemptReconnect_def)
  then have "maxReconnectAttempts \<le> reconnectAttempts (set_readyState i CLOSED ?w')"
    using assms by simp
  then have "timers (onclose (set_readyState i CLOSED ?w')) = timers ?w'"
    by (simp add: onclose_def attemptReconnect_def)
  with 1 show ?thesis by (simp add: rt_step_def)
qed

text \<open>
  Claim C9. The handler of \<open>open\<close> and \<open>disconnect\<close> set the attempt counter to zero; every
  other event (an explicit \<open>connect\<close> included) leaves the counter at least as large as it
  was. So when the counter has reached the cap, an explicit \<open>connect\<close> keeps it there and
  schedules nothing, and if the socket of that attempt closes, still nothing is
  scheduled.
\<close>

theorem attempts_reset_only_by_open_or_disconnect:
  "reconnectAttempts (onopen w) = 0 \<and> reconnectAttempts (disconnect w) = 0 \<and>
   (reconnectAttempts w \<le> reconnectAttempts (rt_step ctor_ok e w) \<or> (\<exists>i. e = SocketOpen i) \<or>
    e = CallDisconnect) \<and>
   (maxReconnectAttempts \<le> reconnectAttempts w \<longrightarrow>
      reconnectAttempts (connect ctor_ok (Some cfg) w) = reconnectAttempts w \<and>
      timers (connect ctor_ok (Some cfg) w) = timers w \<and>
      timers (rt_step ctor_ok (SocketClose i) (connect ctor_ok (Some cfg) w)) = timers w)"
  using counter_kept_by_other_events [of w ctor_ok e] connect_when_exhausted [of w ctor_ok cfg i]
  by (simp add: onopen_def disconnect_fields)

text \<open>
  The theorem of claim C9 at the client that has used up its five reconnects: an explicit
  \<open>connect\<close> constructs a seventh socket, the counter stays at five, and when that socket
  closes the timers are the five of before.
\<close>

theorem attempts_reset_only_by_open_or_disconnect_witness:
  "maxReconnectAttempts \<le> reconnectAttempts example_exhausted \<and>
   reconnectAttempts (connect any_url_ok (Some example_token_config) example_exhausted) = 5 \<and>
   length (sockets (connect any_url_ok (Some example_token_config) example_exhausted)) = 7 \<and>
   map fst (timers (rt_step any_url_ok (SocketClose 6)
      (connect any_url_ok (Some example_token_config) example_exhausted)))
     = [3000, 6000, 12000, 24000, 48000] \<and>
   reconnectAttempts example_exhausted
     \<le> reconnectAttempts (rt_step any_url_ok (CallConnect example_token_config) example_exhausted)"
proof -
  have a: "any_url_ok (wsUrl (serverUrl example_token_config))"
    by (simp add: any_url_ok_def)
  note six = after_six_failures [of any_url_ok example_token_config, OF a,
      folded example_exhausted_def]
  have e: "maxReconnectAttempts \<le> reconnectAttempts example_exhausted"
    using six by (simp add: maxReconnectAttempts_def)
  have s: "length (sockets (connect any_url_ok (Some example_token_config) example_exhausted)) = 7"
    using six a by (simp add: connect_def Let_def)
  from attempts_reset_only_by_open_or_disconnect
         [of example_exhausted any_url_ok "CallConnect example_token_config" example_token_config 6]
       e six s
  show ?thesis by simp
qed

subsection \<open>Handler registration\<close>

lemma registered_subscribe:
  "registered (subscribe ty h w) ty' =
     (if ty' = ty then set_add h (registered w ty) else registered w ty')"
  by (simp add: registered_def subscribe_def Let_def split: option.splits)

lemma registered_unsubscribe:
  "registered (unsubscribe ty h w) ty' =
     (if ty' = ty then set_delete h (registered w ty) else registered w ty')"
  by (simp add: registered_def unsubscribe_def set_delete_def split: option.splits)

lemma subscribe_twice: "subscribe ty h (subscribe ty h w) = subscribe ty h w"
  by (cases "handlers w ty") (simp_all add: subscribe_def Let_def set_add_def)

lemma count_set_add: "distinct hs \<Longrightarrow> count_list (set_add h hs) h = 1"
  by (induction hs) (auto simp: set_add_def)

lemma delivered_notify:
  "delivered (notifyHandlers ty d w) = delivered w @ map (\<lambda>g. (g, d)) (registered w ty)"
  by (simp add: notifyHandlers_def registered_def split: option.splits)

lemma handlers_distinct_ty: "handlers_distinct w \<Longrightarrow> distinct (registered w ty)"
  by (cases ty) (simp_all add: handlers_distinct_def)

lemma handlers_attemptReconnect: "handlers (attemptReconnect w) = handlers w"
  by (simp add: attemptReconnect_def Let_def)

lemma handlers_connect: "handlers (connect ctor_ok cfg w) = handlers w"
  by (simp add: connect_def Let_def handlers_attemptReconnect split: option.splits)

lemma handlers_distinct_cong:
  "handlers w' = handlers w \<Longrightarrow> handlers_distinct w' = handlers_distinct w"
  by (simp add: handlers_distinct_def registered_def)

lemma handlers_distinct_step:
  assumes "handlers_distinct w"
  shows "handlers_distinct (rt_step ctor_ok e w)"
proof (cases e)
  case (CallSubscribe ty h)
  have "distinct (set_add h (registered w ty))"
    using handlers_distinct_ty [OF assms, of ty] by (simp add: set_add_def)
  with assms CallSubscribe show ?thesis
    by (auto simp: rt_step_def handlers_distinct_def registered_subscribe)
next
  case (CallUnsubscribe ty h)
  have "distinct (set_delete h (registered w ty))"
    using handlers_distinct_ty [OF assms, of ty] by (simp add: set_delete_def)
  with assms CallUnsubscribe show ?thesis
    by (auto simp: rt_step_def handlers_distinct_def registered_unsubscribe)
next
  case CallDisconnect
  then show ?thesis
    by (simp add: rt_step_def handlers_distinct_def registered_def disconnect_def Let_def
        split: option.splits)
next
  case (SocketMessage i data)
  have "handlers (onmessage data w) = handlers w"
    by (simp add: onmessage_def handleMessage_def notifyHandlers_def Let_def split: option.splits)
  from handlers_distinct_cong [OF this] assms SocketMessage show ?thesis
    by (simp add: rt_step_def)
next
  case (CallConnect cfg)
  from handlers_distinct_cong [OF handlers_connect, of ctor_ok "Some cfg" w] assms CallConnect
  show ?thesis by (simp add: rt_step_def)
next
  case (SocketOpen i)
  have "handlers (onopen (set_readyState i OPEN w)) = handlers w" by (simp add: onopen_def)
  from handlers_distinct_cong [OF this] assms SocketOpen show ?thesis
    by (simp add: rt_step_def)
next
  case (SocketError i)
  have "handlers (onerror w) = handlers w" by (simp add: onerror_def)
  from handlers_distinct_cong [OF this] assms SocketError show ?thesis
    by (simp add: rt_step_def)
next
  case (SocketClose i)
  have "handlers (onclose (set_readyState i CLOSED w)) = handlers w"
    by (simp add: onclose_def handlers_attemptReconnect)
  from handlers_distinct_cong [OF this] assms SocketClose show ?thesis
    by (simp add: rt_step_def)
next
  case (TimerFires k)
  have "handlers (reconnect_callback ctor_ok (mark_fired k w)) = handlers w"
    by (simp add: reconnect_callback_def handlers_connect)
  from handlers_distinct_cong [OF this] assms TimerFires show ?thesis
    by (simp add: rt_step_def)
qed

text \<open>Every state the client can reach from its initial one has duplicate-free handler sets.\<close>

lemma handlers_distinct_reachable: "handlers_distinct (rt_run ctor_ok es initial_rt)"
proof -
  have "handlers_distinct w \<Longrightarrow> handlers_distinct (rt_run ctor_ok es w)" for w
    unfolding rt_run_def by (induction es arbitrary: w) (simp_all add: handlers_distinct_step)
  moreover have "handlers_distinct initial_rt"
    by (simp add: handlers_distinct_def registered_def initial_rt_def)
  ultimately show ?thesis .
qed

text \<open>
  Claim C10. In a client whose handler sets hold each member once, subscribing a handler
  a second time for the same message type changes nothing: the handler is registered
  once, and a message of that type calls it once. Calling the returned unsubscribe
  function once removes the handler from the set of that type and keeps every other
  handler of that type, in order, and the sets of the other types.
\<close>

theorem subscribe_is_set_based:
  assumes "handlers_distinct w"
  shows "subscribe ty h (subscribe ty h w) = subscribe ty h w \<and>
         count_list (registered (subscribe ty h (subscribe ty h w)) ty) h = 1 \<and>
         count_list (map fst (drop (length (delivered (subscribe ty h (subscribe ty h w))))
              (delivered (notifyHandlers ty d (subscribe ty h (subscribe ty h w)))))) h = 1 \<and>
         registered (unsubscribe ty h (subscribe ty h (subscribe ty h w))) ty
           = filter (\<lambda>g. g \<noteq> h) (registered w ty) \<and>
         h \<notin> set (registered (unsubscribe ty h (subscribe ty h (subscribe ty h w))) ty) \<and>
         (\<forall>ty'. ty' \<noteq> ty \<longrightarrow>
            registered (unsubscribe ty h (subscribe ty h (subscribe ty h w))) ty' = registered w ty')"
proof -
  have d: "distinct (registered w ty)" using assms by (rule handlers_distinct_ty)
  have 1: "count_list (set_add h (registered w ty)) h = 1" using d by (rule count_set_add)
  have 2: "map fst (map (\<lambda>g. (g, d)) (set_add h (registered w ty))) = set_add h (registered w ty)"
    by (simp add: comp_def)
  have 3: "filter (\<lambda>g. g \<noteq> h) (set_add h (registered w ty)) = filter (\<lambda>g. g \<noteq> h) (registered w ty)"
    by (simp add: set_add_def)
  show ?thesis
    using 1 2 3
    by (simp add: subscribe_twice registered_subscribe registered_unsubscribe delivered_notify
        set_delete_def)
qed

text \<open>
  The theorem of claim C10 at a client with handlers 1 and 2 subscribed to positions:
  handler 1 subscribes twice more and unsubscribes once; handler 2 alone is left.
\<close>

theorem subscribe_is_set_based_witness:
  "handlers_distinct (subscribe positions 2 (subscribe positions 1 initial_rt)) \<and>
   count_list (registered (subscribe positions 1 (subscribe positions 1
      (subscribe positions 2 (subscribe positions 1 initial_rt)))) positions) 1 = 1 \<and>
   registered (unsubscribe positions 1 (subscribe positions 1 (subscribe positions 1
      (subscribe positions 2 (subscribe positions 1 initial_rt))))) positions = [2]"
proof -
  have h: "handlers_distinct (subscribe positions 2 (subscribe positions 1 initial_rt))"
    by code_simp
  have v: "registered (subscribe positions 2 (subscribe positions 1 initial_rt)) positions = [1, 2]"
    by code_simp
  note t = subscribe_is_set_based [OF h, of positions 1 "''[]''"]
  from t have c: "count_list (registered (subscribe positions 1 (subscribe positions 1
      (subscribe positions 2 (subscribe positions 1 initial_rt)))) positions) 1 = 1"
    by (rule conjunct1 [OF conjunct2])
  from t have "registered (unsubscribe positions 1 (subscribe positions 1 (subscribe positions 1
      (subscribe positions 2 (subscribe positions 1 initial_rt))))) positions
      = filter (\<lambda>g. g \<noteq> 1)
          (registered (subscribe positions 2 (subscribe positions 1 initial_rt)) positions)"
    by (rule conjunct1 [OF conjunct2 [OF conjunct2 [OF conjunct2]]])
  then have r: "registered (unsubscribe positions 1 (subscribe positions 1 (subscribe positions 1
      (subscribe positions 2 (subscribe positions 1 initial_rt))))) positions = [2]"
    unfolding v by simp
  from h c r show ?thesis by (intro conjI)
qed

end
